theory Spec2Isabelle
  imports Complex_Main
begin

section \<open>JavaScript values and the string primitives used by server.js\<close>

text \<open>
  Request bodies are parsed JSON and query parameters are parsed query strings, so a
  field the handlers destructure can hold any of the values below; \<open>JUndefined\<close> is a
  field that is absent. A number carries the value of its IEEE double, which is all that
  its truthiness depends on.

  Strings are lists of 8-bit characters, read as the code units U+0000 to U+00FF; on
  these \<open>trim\<close>, \<open>toLowerCase\<close> and \<open>parseInt\<close> below are the ECMAScript functions.
  Task ids and the id counter are natural numbers: the source holds them in doubles,
  which are exact for every integer below \<open>2 ^ 53\<close>, so the model is the program for
  every run that issues fewer ids than that.
\<close>

datatype jsval =
    JUndefined
  | JNull
  | JBool bool
  | JNum real
  | JStr string
  | JArr "jsval list"
  | JObj "(string \<times> jsval) list"

text \<open>ToBoolean: what \<open>if (v)\<close> and \<open>!v\<close> test.\<close>

fun truthy :: "jsval \<Rightarrow> bool" where
  "truthy JUndefined = False"
| "truthy JNull = False"
| "truthy (JBool b) = b"
| "truthy (JNum x) = (x \<noteq> 0)"
| "truthy (JStr s) = (s \<noteq> [])"
| "truthy (JArr xs) = True"
| "truthy (JObj kvs) = True"

text \<open>White space and line terminators of ECMAScript below U+0100.\<close>

definition isWhiteSpace :: "char \<Rightarrow> bool" where
  "isWhiteSpace c = ((of_char c :: nat) \<in> {9, 10, 11, 12, 13, 32, 160})"

definition trim :: "string \<Rightarrow> string" where
  "trim s = rev (dropWhile isWhiteSpace (rev (dropWhile isWhiteSpace s)))"

definition toLowerCase_char :: "char \<Rightarrow> char" where
  "toLowerCase_char c =
     (let n = (of_char c :: nat) in
      if (65 \<le> n \<and> n \<le> 90) \<or> (192 \<le> n \<and> n \<le> 222 \<and> n \<noteq> 215)
      then char_of (n + 32) else c)"

definition toLowerCase :: "string \<Rightarrow> string" where
  "toLowerCase s = map toLowerCase_char s"

text \<open>
  \<open>v.trim()\<close> and \<open>v.toLowerCase()\<close> on a value that need not be a string: \<open>None\<close> is
  the TypeError thrown when \<open>v\<close> is not a string (no other JSON value has a callable
  property of that name).
\<close>

fun call_trim :: "jsval \<Rightarrow> string option" where
  "call_trim (JStr s) = Some (trim s)"
| "call_trim v = None"

fun call_toLowerCase :: "jsval \<Rightarrow> string option" where
  "call_toLowerCase (JStr s) = Some (toLowerCase s)"
| "call_toLowerCase v = None"

text \<open>
  \<open>parseInt(s)\<close> with no radix: leading white space is skipped, a sign is read, a
  prefix \<open>0x\<close> or \<open>0X\<close> selects radix 16, and the longest run of digits is the value;
  whatever follows is ignored. \<open>None\<close> is NaN.
\<close>

definition digitValue :: "char \<Rightarrow> nat option" where
  "digitValue c =
     (let n = (of_char c :: nat) in
      if 48 \<le> n \<and> n \<le> 57 then Some (n - 48)
      else if 97 \<le> n \<and> n \<le> 122 then Some (n - 87)
      else if 65 \<le> n \<and> n \<le> 90 then Some (n - 55)
      else None)"

definition isRadixDigit :: "nat \<Rightarrow> char \<Rightarrow> bool" where
  "isRadixDigit R c = (case digitValue c of None \<Rightarrow> False | Some d \<Rightarrow> d < R)"

definition digitsValue :: "nat \<Rightarrow> string \<Rightarrow> nat" where
  "digitsValue R Z =
     foldl (\<lambda>a c. case digitValue c of None \<Rightarrow> a | Some d \<Rightarrow> a * R + d) 0 Z"

definition parseInt :: "string \<Rightarrow> int option" where
  "parseInt s =
     (let S = dropWhile isWhiteSpace s;
          sign = (if S \<noteq> [] \<and> hd S = CHR ''-'' then - 1 else (1::int));
          S1 = (if S \<noteq> [] \<and> (hd S = CHR ''+'' \<or> hd S = CHR ''-'') then tl S else S);
          hex = (take 2 S1 = ''0x'' \<or> take 2 S1 = ''0X'');
          R = (if hex then 16 else 10);
          S2 = (if hex then drop 2 S1 else S1);
          Z = takeWhile (isRadixDigit R) S2
      in if Z = [] then None else Some (sign * int (digitsValue R Z)))"

section \<open>The task store\<close>

type_synonym timestamp = string

record task =
  id_task :: nat
  title :: string
  description :: string
  status :: string
  priority :: string
  createdAt :: timestamp
  updatedAt :: timestamp

record store =
  tasks :: "task list"
  nextId :: nat

text \<open>
  The module's initial state. The four timestamps are the clock readings taken when
  the module is loaded.
\<close>

definition init_store :: "timestamp \<Rightarrow> timestamp \<Rightarrow> timestamp \<Rightarrow> timestamp \<Rightarrow> store" where
  "init_store c1 u1 c2 u2 =
     \<lparr> tasks =
         [ \<lparr> id_task = 1, title = ''Learn Node.js'',
             description = ''Complete Node.js tutorial'',
             status = ''pending'', priority = ''high'',
             createdAt = c1, updatedAt = u1 \<rparr>,
           \<lparr> id_task = 2, title = ''Build API'',
             description = ''Create REST API for task management'',
             status = ''in-progress'', priority = ''medium'',
             createdAt = c2, updatedAt = u2 \<rparr> ],
       nextId = 3 \<rparr>"

text \<open>\<open>task.id === parseInt(id)\<close>\<close>

definition id_matches :: "string \<Rightarrow> task \<Rightarrow> bool" where
  "id_matches idp t = (parseInt idp = Some (int (id_task t)))"

definition findTaskById :: "string \<Rightarrow> task list \<Rightarrow> task option" where
  "findTaskById idp ts = find (id_matches idp) ts"

text \<open>\<open>Array.prototype.findIndex\<close>; \<open>None\<close> is \<open>-1\<close>.\<close>

fun findIndex :: "('a \<Rightarrow> bool) \<Rightarrow> 'a list \<Rightarrow> nat option" where
  "findIndex P [] = None"
| "findIndex P (x # xs) =
     (if P x then Some 0 else map_option Suc (findIndex P xs))"

section \<open>Responses\<close>

record priority_counts =
  high :: nat
  medium :: nat
  low :: nat

record stats =
  total :: nat
  pending :: nat
  inProgress :: nat
  completed :: nat
  byPriority :: priority_counts

datatype payload =
    NoData
  | TaskData task
  | TaskList nat "task list"
  | StatsData stats

datatype response =
  Response (code: nat) (success: bool) (message: "string option") (data: payload)

definition notFound :: response where
  "notFound = Response 404 False (Some ''Task not found'') NoData"

definition validationError :: "string \<Rightarrow> response" where
  "validationError msg = Response 400 False (Some msg) NoData"

text \<open>
  What the error-handling middleware sends when a handler throws. The store keeps
  whatever the handler had written before the throw.
\<close>

definition internalError :: response where
  "internalError = Response 500 False (Some ''Something went wrong!'') NoData"

section \<open>The handlers\<close>

subsection \<open>GET /api/tasks\<close>

text \<open>
  One \<open>if (v) filteredTasks = filteredTasks.filter(...)\<close> step. The callback calls
  \<open>v.toLowerCase()\<close>, so a truthy \<open>v\<close> that is not a string throws, but only if the
  callback runs at all, that is on a non-empty list.
\<close>

definition filter_step :: "(task \<Rightarrow> string) \<Rightarrow> jsval \<Rightarrow> task list \<Rightarrow> task list option" where
  "filter_step field v ts =
     (if \<not> truthy v then Some ts
      else if ts = [] then Some []
      else (case call_toLowerCase v of
              None \<Rightarrow> None
            | Some l \<Rightarrow> Some (filter (\<lambda>t. toLowerCase (field t) = l) ts)))"

definition list_tasks :: "jsval \<Rightarrow> jsval \<Rightarrow> store \<Rightarrow> response \<times> store" where
  "list_tasks qstatus qpriority st =
     (case filter_step status qstatus (tasks st) of
        None \<Rightarrow> (internalError, st)
      | Some ts1 \<Rightarrow>
          (case filter_step priority qpriority ts1 of
             None \<Rightarrow> (internalError, st)
           | Some ts2 \<Rightarrow> (Response 200 True None (TaskList (length ts2) ts2), st)))"

subsection \<open>GET /api/tasks/:id\<close>

definition get_task :: "string \<Rightarrow> store \<Rightarrow> response \<times> store" where
  "get_task idp st =
     (case findTaskById idp (tasks st) of
        None \<Rightarrow> (notFound, st)
      | Some t \<Rightarrow> (Response 200 True None (TaskData t), st))"

subsection \<open>POST /api/tasks\<close>

record body =
  req_title :: jsval
  req_description :: jsval
  req_status :: jsval
  req_priority :: jsval

text \<open>
  The object literal of \<open>newTask\<close> is evaluated in source order: \<open>nextId++\<close> first,
  then the two \<open>trim()\<close> calls, then the two clock readings \<open>now1\<close> and \<open>now2\<close>.
  A throw from \<open>trim()\<close> therefore leaves the counter advanced.
\<close>

definition create_task :: "timestamp \<Rightarrow> timestamp \<Rightarrow> body \<Rightarrow> store \<Rightarrow> response \<times> store" where
  "create_task now1 now2 b st =
     (let ttl = req_title b;
          dsc = req_description b;
          prio = (if req_priority b = JUndefined then JStr ''medium'' else req_priority b)
      in
      if \<not> truthy ttl \<or> \<not> truthy dsc
      then (validationError ''Title and description are required'', st)
      else (case call_toLowerCase prio of
        None \<Rightarrow> (internalError, st)
      | Some p \<Rightarrow>
          if p \<notin> set [''low'', ''medium'', ''high'']
          then (validationError ''Priority must be: low, medium, or high'', st)
          else
            (let st1 = st\<lparr>nextId := nextId st + 1\<rparr> in
             case call_trim ttl of
               None \<Rightarrow> (internalError, st1)
             | Some t \<Rightarrow>
                 (case call_trim dsc of
                    None \<Rightarrow> (internalError, st1)
                  | Some d \<Rightarrow>
                      (let newTask =
                             \<lparr> id_task = nextId st, title = t, description = d,
                               status = ''pending'', priority = p,
                               createdAt = now1, updatedAt = now2 \<rparr>
                       in (Response 201 True (Some ''Task created successfully'')
                             (TaskData newTask),
                           st1\<lparr>tasks := tasks st1 @ [newTask]\<rparr>))))))"

subsection \<open>PUT /api/tasks/:id\<close>

text \<open>
  The handler mutates the found task object in place, one field per statement; the
  model writes the task back at the index where \<open>find\<close> found it. \<open>None\<close> from one of
  the steps below is a throw of that statement.
\<close>

definition set_title :: "jsval \<Rightarrow> task \<Rightarrow> task option" where
  "set_title v t =
     (if truthy v then map_option (\<lambda>x. t\<lparr>title := x\<rparr>) (call_trim v) else Some t)"

definition set_description :: "jsval \<Rightarrow> task \<Rightarrow> task option" where
  "set_description v t =
     (if truthy v then map_option (\<lambda>x. t\<lparr>description := x\<rparr>) (call_trim v) else Some t)"

definition set_status :: "jsval \<Rightarrow> task \<Rightarrow> task option" where
  "set_status v t =
     (if truthy v then map_option (\<lambda>x. t\<lparr>status := x\<rparr>) (call_toLowerCase v) else Some t)"

definition set_priority :: "jsval \<Rightarrow> task \<Rightarrow> task option" where
  "set_priority v t =
     (if truthy v then map_option (\<lambda>x. t\<lparr>priority := x\<rparr>) (call_toLowerCase v) else Some t)"

text \<open>
  \<open>v && !allowed.includes(v.toLowerCase())\<close>: \<open>None\<close> is the throw, \<open>Some True\<close> a
  rejected value.
\<close>

definition rejects :: "string list \<Rightarrow> jsval \<Rightarrow> bool option" where
  "rejects allowed v =
     (if \<not> truthy v then Some False
      else map_option (\<lambda>l. l \<notin> set allowed) (call_toLowerCase v))"

definition put_back :: "store \<Rightarrow> nat \<Rightarrow> task \<Rightarrow> store" where
  "put_back st i t = st\<lparr>tasks := (tasks st)[i := t]\<rparr>"

definition update_task :: "string \<Rightarrow> timestamp \<Rightarrow> body \<Rightarrow> store \<Rightarrow> response \<times> store" where
  "update_task idp now b st =
     (case findIndex (id_matches idp) (tasks st) of
        None \<Rightarrow> (notFound, st)
      | Some i \<Rightarrow>
         (case rejects [''pending'', ''in-progress'', ''completed''] (req_status b) of
            None \<Rightarrow> (internalError, st)
          | Some True \<Rightarrow>
              (validationError ''Status must be: pending, in-progress, or completed'', st)
          | Some False \<Rightarrow>
         (case rejects [''low'', ''medium'', ''high''] (req_priority b) of
            None \<Rightarrow> (internalError, st)
          | Some True \<Rightarrow> (validationError ''Priority must be: low, medium, or high'', st)
          | Some False \<Rightarrow>
         (let t0 = tasks st ! i in
          case set_title (req_title b) t0 of
            None \<Rightarrow> (internalError, put_back st i t0)
          | Some t1 \<Rightarrow>
         (case set_description (req_description b) t1 of
            None \<Rightarrow> (internalError, put_back st i t1)
          | Some t2 \<Rightarrow>
         (case set_status (req_status b) t2 of
            None \<Rightarrow> (internalError, put_back st i t2)
          | Some t3 \<Rightarrow>
         (case set_priority (req_priority b) t3 of
            None \<Rightarrow> (internalError, put_back st i t3)
          | Some t4 \<Rightarrow>
         (let t5 = t4\<lparr>updatedAt := now\<rparr>
          in (Response 200 True (Some ''Task updated successfully'') (TaskData t5),
              put_back st i t5)))))))))"

subsection \<open>DELETE /api/tasks/:id\<close>

text \<open>\<open>tasks.splice(i, 1)\<close> removes the element at index \<open>i\<close> and returns it.\<close>

definition splice1 :: "nat \<Rightarrow> 'a list \<Rightarrow> 'a list" where
  "splice1 i xs = take i xs @ drop (Suc i) xs"

definition delete_task :: "string \<Rightarrow> store \<Rightarrow> response \<times> store" where
  "delete_task idp st =
     (case findIndex (id_matches idp) (tasks st) of
        None \<Rightarrow> (notFound, st)
      | Some i \<Rightarrow>
          (Response 200 True (Some ''Task deleted successfully'') (TaskData (tasks st ! i)),
           st\<lparr>tasks := splice1 i (tasks st)\<rparr>))"

subsection \<open>GET /api/stats\<close>

definition count_where :: "(task \<Rightarrow> string) \<Rightarrow> string \<Rightarrow> task list \<Rightarrow> nat" where
  "count_where field v ts = length (filter (\<lambda>t. field t = v) ts)"

definition compute_stats :: "task list \<Rightarrow> stats" where
  "compute_stats ts =
     \<lparr> total = length ts,
       pending = count_where status ''pending'' ts,
       inProgress = count_where status ''in-progress'' ts,
       completed = count_where status ''completed'' ts,
       byPriority =
         \<lparr> high = count_where priority ''high'' ts,
           medium = count_where priority ''medium'' ts,
           low = count_where priority ''low'' ts \<rparr> \<rparr>"

definition get_stats :: "store \<Rightarrow> response \<times> store" where
  "get_stats st = (Response 200 True None (StatsData (compute_stats (tasks st))), st)"

section \<open>Requests, runs and reachable stores\<close>

datatype request =
    List jsval jsval
  | Get string
  | Create timestamp timestamp body
  | Update string timestamp body
  | Delete string
  | Stats

fun handle :: "request \<Rightarrow> store \<Rightarrow> response \<times> store" where
  "handle (List qs qp) st = list_tasks qs qp st"
| "handle (Get idp) st = get_task idp st"
| "handle (Create now1 now2 b) st = create_task now1 now2 b st"
| "handle (Update idp now b) st = update_task idp now b st"
| "handle (Delete idp) st = delete_task idp st"
| "handle Stats st = get_stats st"

text \<open>Requests are served one at a time, each on the store the previous one left.\<close>

fun run :: "request list \<Rightarrow> store \<Rightarrow> response list \<times> store" where
  "run [] st = ([], st)"
| "run (r # rs) st =
     (let (resp, st1) = handle r st; (resps, st2) = run rs st1
      in (resp # resps, st2))"

inductive reachable :: "store \<Rightarrow> bool" where
  start: "reachable (init_store c1 u1 c2 u2)"
| step: "reachable st \<Longrightarrow> reachable (snd (handle r st))"

section \<open>Notions used in the statements\<close>

text \<open>The two enumerations, as the validation code lists them.\<close>

definition status_values :: "string list" where
  "status_values = [''pending'', ''in-progress'', ''completed'']"

definition priority_values :: "string list" where
  "priority_values = [''low'', ''medium'', ''high'']"

text \<open>
  The invariant of the store: the counter is above every id in use, ids are
  pairwise different, and status and priority are values of their enumerations.
\<close>

definition store_inv :: "store \<Rightarrow> bool" where
  "store_inv st =
     (3 \<le> nextId st
      \<and> list_all (\<lambda>t. id_task t < nextId st) (tasks st)
      \<and> distinct (map id_task (tasks st))
      \<and> list_all (\<lambda>t. status t \<in> set status_values \<and> priority t \<in> set priority_values) (tasks st))"

text \<open>What an update may do to the fields the invariant speaks about.\<close>

definition same_key_fields :: "task \<Rightarrow> task \<Rightarrow> bool" where
  "same_key_fields t0 t =
     (id_task t = id_task t0
      \<and> (status t = status t0 \<or> status t \<in> set status_values)
      \<and> (priority t = priority t0 \<or> priority t \<in> set priority_values))"

text \<open>The id a response reports as newly created: only POST answers 201.\<close>

fun created_id :: "response \<Rightarrow> nat option" where
  "created_id (Response c s m (TaskData t)) = (if c = 201 then Some (id_task t) else None)"
| "created_id (Response c s m d) = None"

definition created_ids :: "response list \<Rightarrow> nat list" where
  "created_ids resps = List.map_filter created_id resps"

fun is_create :: "request \<Rightarrow> bool" where
  "is_create (Create now1 now2 b) = True"
| "is_create r = False"

text \<open>A body field that is absent or the empty string.\<close>

definition absent_or_empty :: "jsval \<Rightarrow> bool" where
  "absent_or_empty v = (v = JUndefined \<or> v = JStr [])"

text \<open>An id that is in no task and that the counter has passed.\<close>

definition id_gone :: "nat \<Rightarrow> store \<Rightarrow> bool" where
  "id_gone k st = (k < nextId st \<and> list_all (\<lambda>t. id_task t \<noteq> k) (tasks st))"

section \<open>Auxiliary facts\<close>

lemma findIndex_Some:
  "findIndex P xs = Some i \<Longrightarrow> i < length xs \<and> P (xs ! i) \<and> (\<forall>j<i. \<not> P (xs ! j))"
proof (induction xs arbitrary: i)
  case Nil
  then show ?case by simp
next
  case (Cons x xs)
  show ?case
  proof (cases "P x")
    case True
    with Cons.prems show ?thesis by simp
  next
    case False
    with Cons.prems obtain k where k: "findIndex P xs = Some k" "i = Suc k"
      by auto
    from Cons.IH[OF k(1)] False k(2) show ?thesis
      by (auto simp: nth_Cons split: nat.splits)
  qed
qed

lemma findIndex_None: "findIndex P xs = None \<longleftrightarrow> (\<forall>x\<in>set xs. \<not> P x)"
  by (induction xs) auto

lemma find_findIndex: "find P xs = map_option (\<lambda>i. xs ! i) (findIndex P xs)"
  by (induction xs) (auto simp: option.map_comp comp_def)

lemma rev_split_whitespace:
  "\<exists>w. m = rev (dropWhile P (rev m)) @ w \<and> list_all P w"
proof -
  define tw where "tw = takeWhile P (rev m)"
  define dw where "dw = dropWhile P (rev m)"
  have e: "rev m = tw @ dw" by (simp add: tw_def dw_def)
  have "rev (rev m) = rev (tw @ dw)" by (rule arg_cong[OF e])
  then have "m = rev dw @ rev tw" by simp
  moreover have "list_all P (rev tw)"
    by (auto simp: tw_def list_all_iff dest: set_takeWhileD)
  ultimately show ?thesis unfolding dw_def by blast
qed

lemma trim_decomp:
  "\<exists>l r. s = l @ trim s @ r \<and> list_all isWhiteSpace l \<and> list_all isWhiteSpace r"
proof -
  define l where "l = takeWhile isWhiteSpace s"
  define m where "m = dropWhile isWhiteSpace s"
  have s: "s = l @ m" by (simp add: l_def m_def)
  obtain r where r: "m = rev (dropWhile isWhiteSpace (rev m)) @ r" "list_all isWhiteSpace r"
    using rev_split_whitespace[of m isWhiteSpace] by blast
  have t: "trim s = rev (dropWhile isWhiteSpace (rev m))" by (simp add: trim_def m_def)
  have "s = l @ trim s @ r" using s r(1) t by simp
  moreover have "list_all isWhiteSpace l"
    by (auto simp: l_def list_all_iff dest: set_takeWhileD)
  ultimately show ?thesis using r(2) by blast
qed

lemma trim_ends:
  "trim s = [] \<or> (\<not> isWhiteSpace (hd (trim s)) \<and> \<not> isWhiteSpace (last (trim s)))"
proof (cases "trim s = []")
  case True then show ?thesis by simp
next
  case False
  define m where "m = dropWhile isWhiteSpace s"
  define d where "d = dropWhile isWhiteSpace (rev m)"
  have t: "trim s = rev d" by (simp add: trim_def m_def d_def)
  with False have dne: "d \<noteq> []" by simp
  then have "\<not> isWhiteSpace (hd d)" unfolding d_def by (rule hd_dropWhile)
  then have l: "\<not> isWhiteSpace (last (trim s))" using t dne by (simp add: last_rev)
  have mne: "m \<noteq> []" using dne d_def by auto
  then have hm: "\<not> isWhiteSpace (hd m)" unfolding m_def by (rule hd_dropWhile)
  obtain w where "m = rev d @ w"
    using rev_split_whitespace[of m isWhiteSpace] unfolding d_def by blast
  then have "hd m = hd (rev d)" using dne by (metis hd_append2 rev_is_Nil_conv)
  with hm t l show ?thesis by simp
qed

lemma same_key_fields_refl: "same_key_fields t t"
  by (simp add: same_key_fields_def)

lemma set_title_keeps:
  "set_title v t = Some t' \<Longrightarrow> same_key_fields t0 t \<Longrightarrow> same_key_fields t0 t'"
  by (auto simp: set_title_def same_key_fields_def split: if_splits)

lemma set_description_keeps:
  "set_description v t = Some t' \<Longrightarrow> same_key_fields t0 t \<Longrightarrow> same_key_fields t0 t'"
  by (auto simp: set_description_def same_key_fields_def split: if_splits)

lemma set_status_keeps:
  "rejects status_values v = Some False \<Longrightarrow> set_status v t = Some t' \<Longrightarrow>
   same_key_fields t0 t \<Longrightarrow> same_key_fields t0 t'"
  by (auto simp: set_status_def rejects_def same_key_fields_def split: if_splits)

lemma set_priority_keeps:
  "rejects priority_values v = Some False \<Longrightarrow> set_priority v t = Some t' \<Longrightarrow>
   same_key_fields t0 t \<Longrightarrow> same_key_fields t0 t'"
  by (auto simp: set_priority_def rejects_def same_key_fields_def split: if_splits)

lemma update_task_shape:
  assumes "update_task idp now b st = (resp, st')"
  shows "st' = st \<or>
         (\<exists>i t'. findIndex (id_matches idp) (tasks st) = Some i \<and> st' = put_back st i t'
                 \<and> same_key_fields (tasks st ! i) t')"
proof (cases "findIndex (id_matches idp) (tasks st)")
  case None
  with assms show ?thesis by (simp add: update_task_def)
next
  case (Some i)
  define t0 where "t0 = tasks st ! i"
  note k0 = same_key_fields_refl[of t0]
  show ?thesis
  proof (cases "rejects status_values (req_status b) = Some False
                \<and> rejects priority_values (req_priority b) = Some False")
    case False
    with assms Some have "st' = st"
      by (auto simp: update_task_def status_values_def priority_values_def
               split: option.splits bool.splits)
    then show ?thesis by simp
  next
    case True
    then have rs: "rejects status_values (req_status b) = Some False"
      and rp: "rejects priority_values (req_priority b) = Some False" by simp_all
    have "\<exists>t'. st' = put_back st i t' \<and> same_key_fields t0 t'"
    proof (cases "set_title (req_title b) t0")
      case None
      with assms Some rs rp k0 show ?thesis
        by (auto simp: update_task_def Let_def status_values_def priority_values_def t0_def)
    next
      case t1: (Some t1)
      note k1 = set_title_keeps[OF t1 k0]
      show ?thesis
      proof (cases "set_description (req_description b) t1")
        case None
        with assms Some rs rp t1 k1 show ?thesis
          by (auto simp: update_task_def Let_def status_values_def priority_values_def t0_def)
      next
        case t2: (Some t2)
        note k2 = set_description_keeps[OF t2 k1]
        show ?thesis
        proof (cases "set_status (req_status b) t2")
          case None
          with assms Some rs rp t1 t2 k2 show ?thesis
            by (auto simp: update_task_def Let_def status_values_def priority_values_def t0_def)
        next
          case t3: (Some t3)
          note k3 = set_status_keeps[OF rs t3 k2]
          show ?thesis
          proof (cases "set_priority (req_priority b) t3")
            case None
            with assms Some rs rp t1 t2 t3 k3 show ?thesis
              by (auto simp: update_task_def Let_def status_values_def priority_values_def t0_def)
          next
            case t4: (Some t4)
            note k4 = set_priority_keeps[OF rp t4 k3]
            have "same_key_fields t0 (t4\<lparr>updatedAt := now\<rparr>)"
              using k4 by (simp add: same_key_fields_def)
            with assms Some rs rp t1 t2 t3 t4 show ?thesis
              by (auto simp: update_task_def Let_def status_values_def priority_values_def t0_def)
          qed
        qed
      qed
    qed
    with Some show ?thesis by (auto simp: t0_def)
  qed
qed

lemma create_task_cases:
  assumes "create_task now1 now2 b st = (resp, st')"
  shows "(st' = st \<and> (code resp = 400 \<or> code resp = 500))
       \<or> (st' = st\<lparr>nextId := nextId st + 1\<rparr> \<and> code resp = 500)
       \<or> (\<exists>nt. resp = Response 201 True (Some ''Task created successfully'') (TaskData nt)
              \<and> id_task nt = nextId st \<and> status nt = ''pending''
              \<and> priority nt \<in> set priority_values
              \<and> st' = \<lparr>tasks = tasks st @ [nt], nextId = nextId st + 1\<rparr>)"
  using assms
  by (auto simp: create_task_def Let_def validationError_def internalError_def
                 priority_values_def
           split: if_splits option.splits)

lemma delete_task_cases:
  assumes "delete_task idp st = (resp, st')"
  shows "(st' = st \<and> resp = notFound \<and> findIndex (id_matches idp) (tasks st) = None)
       \<or> (\<exists>i. findIndex (id_matches idp) (tasks st) = Some i
              \<and> resp = Response 200 True (Some ''Task deleted successfully'')
                         (TaskData (tasks st ! i))
              \<and> st' = st\<lparr>tasks := splice1 i (tasks st)\<rparr>)"
  using assms by (auto simp: delete_task_def split: option.splits)

lemma list_tasks_store: "snd (list_tasks qs qp st) = st"
  by (simp add: list_tasks_def split: option.splits)

lemma get_task_store: "snd (get_task idp st) = st"
  by (simp add: get_task_def split: option.splits)

lemma get_stats_store: "snd (get_stats st) = st"
  by (simp add: get_stats_def)

lemma store_inv_put_back:
  assumes inv: "store_inv st" and i: "i < length (tasks st)"
    and k: "same_key_fields (tasks st ! i) t'"
  shows "store_inv (put_back st i t')"
proof -
  let ?ts = "tasks st"
  have old: "?ts ! i \<in> set ?ts" using i by simp
  have sub: "set (?ts[i := t']) \<subseteq> insert t' (set ?ts)" by (rule set_update_subset_insert)
  have ids: "map id_task (?ts[i := t']) = map id_task ?ts"
    using k i by (simp add: map_update same_key_fields_def list_update_same_conv)
  have a: "id_task t' < nextId st"
    using inv old k by (auto simp: store_inv_def list_all_iff same_key_fields_def)
  have b: "status t' \<in> set status_values \<and> priority t' \<in> set priority_values"
    using inv old k by (auto simp: store_inv_def list_all_iff same_key_fields_def)
  have "list_all (\<lambda>t. id_task t < nextId st) (?ts[i := t'])"
    using inv a sub by (auto simp: store_inv_def list_all_iff)
  moreover have "list_all (\<lambda>t. status t \<in> set status_values \<and> priority t \<in> set priority_values)
                   (?ts[i := t'])"
    using inv b sub unfolding store_inv_def list_all_iff by blast
  ultimately show ?thesis
    using inv ids by (simp add: store_inv_def put_back_def)
qed

lemma set_splice1: "set (splice1 i xs) \<subseteq> set xs"
  unfolding splice1_def by (auto dest: in_set_takeD in_set_dropD)

lemma distinct_map_splice1: "distinct (map f xs) \<Longrightarrow> distinct (map f (splice1 i xs))"
proof -
  assume d: "distinct (map f xs)"
  have "map f xs = map f (take i xs) @ map f (drop i xs)"
    by (simp flip: map_append)
  moreover have "drop i xs = take 1 (drop i xs) @ drop (Suc i) xs"
    by (metis Suc_eq_plus1_left append_take_drop_id drop_drop add.commute)
  ultimately have "map f xs = map f (take i xs) @ map f (take 1 (drop i xs)) @ map f (drop (Suc i) xs)"
    by (metis map_append)
  with d have "distinct (map f (take i xs) @ map f (drop (Suc i) xs))"
    by (metis distinct_append Int_Un_distrib set_append Un_empty)
  then show ?thesis by (simp add: splice1_def)
qed

lemma store_inv_create:
  assumes "store_inv st" shows "store_inv (snd (create_task now1 now2 b st))"
proof -
  obtain resp st' where r: "create_task now1 now2 b st = (resp, st')" by force
  from create_task_cases[OF r] assms have "store_inv st'"
    unfolding store_inv_def list_all_iff
    by (fastforce simp: status_values_def less_Suc_eq)
  with r show ?thesis by simp
qed

lemma store_inv_update:
  assumes "store_inv st" shows "store_inv (snd (update_task idp now b st))"
proof -
  obtain resp st' where r: "update_task idp now b st = (resp, st')" by force
  from update_task_shape[OF r] assms have "store_inv st'"
    by (auto dest: findIndex_Some intro: store_inv_put_back)
  with r show ?thesis by simp
qed

lemma store_inv_delete:
  assumes "store_inv st" shows "store_inv (snd (delete_task idp st))"
proof -
  obtain resp st' where r: "delete_task idp st = (resp, st')" by force
  from delete_task_cases[OF r] have "st' = st \<or> (\<exists>i. st' = st\<lparr>tasks := splice1 i (tasks st)\<rparr>)"
    by auto
  then have "store_inv st'"
  proof
    assume "st' = st" with assms show ?thesis by simp
  next
    assume "\<exists>i. st' = st\<lparr>tasks := splice1 i (tasks st)\<rparr>"
    then obtain i where s: "st' = st\<lparr>tasks := splice1 i (tasks st)\<rparr>" ..
    have "set (splice1 i (tasks st)) \<subseteq> set (tasks st)" by (rule set_splice1)
    with assms s show ?thesis
      unfolding store_inv_def list_all_iff
      by (auto intro: distinct_map_splice1)
  qed
  with r show ?thesis by simp
qed

lemma store_inv_handle: "store_inv st \<Longrightarrow> store_inv (snd (handle r st))"
  by (cases r)
     (simp_all add: list_tasks_store get_task_store get_stats_store
                    store_inv_create store_inv_update store_inv_delete)

lemma store_inv_init: "store_inv (init_store c1 u1 c2 u2)"
  by (simp add: store_inv_def init_store_def status_values_def priority_values_def)

lemma reachable_inv: "reachable st \<Longrightarrow> store_inv st"
  by (induction rule: reachable.induct) (simp_all add: store_inv_init store_inv_handle)

lemma count_where_partition:
  assumes "list_all (\<lambda>t. f t = a \<or> f t = b \<or> f t = c) ts"
    and "a \<noteq> b" and "a \<noteq> c" and "b \<noteq> c"
  shows "count_where f a ts + count_where f b ts + count_where f c ts = length ts"
  using assms by (induction ts) (auto simp: count_where_def)

(* C3 *)

lemma run_Cons_eq:
  "run (r # rs) st = (fst (handle r st) # fst (run rs (snd (handle r st))),
                       snd (run rs (snd (handle r st))))"
  by (simp add: case_prod_beta Let_def)

declare run.simps(2) [simp del]

lemma reachable_run: "reachable st \<Longrightarrow> reachable (snd (run rs st))"
proof (induction rs arbitrary: st)
  case Nil
  then show ?case by simp
next
  case (Cons r rs)
  from Cons.prems have "reachable (snd (handle r st))" by (rule reachable.step)
  then have "reachable (snd (run rs (snd (handle r st))))" by (rule Cons.IH)
  then show ?case by (simp add: run_Cons_eq)
qed

lemma update_task_nextId: "nextId (snd (update_task idp now b st)) = nextId st"
proof -
  obtain resp st' where r: "update_task idp now b st = (resp, st')" by force
  from update_task_shape[OF r] have "nextId st' = nextId st"
    by (auto simp: put_back_def)
  with r show ?thesis by simp
qed

lemma update_task_code: "code (fst (update_task idp now b st)) \<noteq> 201"
  by (auto simp: update_task_def Let_def notFound_def internalError_def validationError_def
           split: option.splits bool.splits)

lemma created_id_code: "created_id resp = Some k \<Longrightarrow> code resp = 201"
  by (cases resp rule: created_id.cases) (auto split: if_splits)

lemma created_id_not_201: "code resp \<noteq> 201 \<Longrightarrow> created_id resp = None"
  using created_id_code by (cases "created_id resp") auto

text \<open>One request: the counter never decreases, and an id is reported as created only
  by a step that takes it from the counter.\<close>

lemma handle_counter:
  "nextId st \<le> nextId (snd (handle r st))
   \<and> (\<forall>k. created_id (fst (handle r st)) = Some k \<longrightarrow>
          k = nextId st \<and> nextId (snd (handle r st)) = nextId st + 1)"
proof (cases r)
  case (List qs qp)
  have "code (fst (list_tasks qs qp st)) \<noteq> 201"
    by (simp add: list_tasks_def internalError_def split: option.splits)
  then show ?thesis using List by (simp add: list_tasks_store created_id_not_201)
next
  case (Get idp)
  have "code (fst (get_task idp st)) \<noteq> 201"
    by (simp add: get_task_def notFound_def split: option.splits)
  then show ?thesis using Get by (simp add: get_task_store created_id_not_201)
next
  case (Create now1 now2 b)
  obtain resp st' where c: "create_task now1 now2 b st = (resp, st')" by force
  from create_task_cases[OF c] show ?thesis using Create c
    by (auto dest: created_id_code)
next
  case (Update idp now b)
  then show ?thesis
    by (simp add: update_task_nextId created_id_not_201[OF update_task_code])
next
  case (Delete idp)
  obtain resp st' where d: "delete_task idp st = (resp, st')" by force
  from delete_task_cases[OF d] show ?thesis using Delete d by (auto simp: notFound_def)
next
  case Stats
  then show ?thesis by (simp add: get_stats_def)
qed

lemma created_ids_Cons:
  "created_ids (x # xs) = (case created_id x of None \<Rightarrow> created_ids xs
                           | Some k \<Rightarrow> k # created_ids xs)"
  by (simp add: created_ids_def split: option.splits)

lemma created_ids_Nil: "created_ids [] = []"
  by (simp add: created_ids_def)

lemma run_counter:
  "nextId st \<le> nextId (snd (run rs st))
   \<and> sorted_wrt (<) (created_ids (fst (run rs st)))
   \<and> (\<forall>k\<in>set (created_ids (fst (run rs st))). nextId st \<le> k \<and> k < nextId (snd (run rs st)))"
proof (induction rs arbitrary: st)
  case Nil
  then show ?case by (simp add: created_ids_Nil)
next
  case (Cons r rs)
  let ?st1 = "snd (handle r st)"
  note h = handle_counter[of st r]
  note ih = Cons.IH[of ?st1]
  show ?case
  proof (cases "created_id (fst (handle r st))")
    case None
    with h ih show ?thesis
      by (auto simp: run_Cons_eq created_ids_Cons)
  next
    case (Some k)
    with h have k: "k = nextId st" "nextId ?st1 = nextId st + 1" by auto
    with Some ih show ?thesis
      by (fastforce simp: run_Cons_eq created_ids_Cons)
  qed
qed

text \<open>When no Create ends in an internal error, the counter moves exactly with the
  successful creations.\<close>

lemma handle_counter_exact:
  assumes "is_create r \<longrightarrow> code (fst (handle r st)) \<noteq> 500"
  shows "(created_id (fst (handle r st)) = None \<longrightarrow> nextId (snd (handle r st)) = nextId st)"
proof (cases r)
  case (Create now1 now2 b)
  obtain resp st' where c: "create_task now1 now2 b st = (resp, st')" by force
  from create_task_cases[OF c] assms show ?thesis using Create c
    by (auto dest: created_id_code)
next
  case (Update idp now b)
  then show ?thesis by (simp add: update_task_nextId)
next
  case (Delete idp)
  obtain resp st' where d: "delete_task idp st = (resp, st')" by force
  from delete_task_cases[OF d] show ?thesis using Delete d by auto
qed (simp_all add: list_tasks_store get_task_store get_stats_store)

lemma run_counter_exact:
  assumes "list_all (\<lambda>(r, resp). is_create r \<longrightarrow> code resp \<noteq> 500) (zip rs (fst (run rs st)))"
  shows "created_ids (fst (run rs st)) = [nextId st ..< nextId (snd (run rs st))]"
  using assms
proof (induction rs arbitrary: st)
  case Nil
  then show ?case by (simp add: created_ids_Nil)
next
  case (Cons r rs)
  let ?st1 = "snd (handle r st)"
  from Cons.prems have ok: "is_create r \<longrightarrow> code (fst (handle r st)) \<noteq> 500"
    and rest: "list_all (\<lambda>(r, resp). is_create r \<longrightarrow> code resp \<noteq> 500)
                 (zip rs (fst (run rs ?st1)))"
    by (simp_all add: run_Cons_eq)
  note ih = Cons.IH[OF rest]
  have mono: "nextId ?st1 \<le> nextId (snd (run rs ?st1))" using run_counter[of ?st1 rs] by simp
  show ?case
  proof (cases "created_id (fst (handle r st))")
    case None
    with handle_counter_exact[OF ok] have "nextId ?st1 = nextId st" by simp
    with None ih show ?thesis by (simp add: run_Cons_eq created_ids_Cons)
  next
    case (Some k)
    with handle_counter[of st r] have k: "k = nextId st" "nextId ?st1 = nextId st + 1" by auto
    with mono have "[nextId st ..< nextId (snd (run rs ?st1))]
                    = nextId st # [nextId ?st1 ..< nextId (snd (run rs ?st1))]"
      by (simp add: upt_conv_Cons)
    with Some k ih show ?thesis by (simp add: run_Cons_eq created_ids_Cons)
  qed
qed

lemma filter_step_string:
  "filter_step field (JStr s) ts
     = Some (if s = [] then ts else filter (\<lambda>t. toLowerCase (field t) = toLowerCase s) ts)"
  by (simp add: filter_step_def)

lemma filter_step_absent: "filter_step field JUndefined ts = Some ts"
  by (simp add: filter_step_def)

lemma set_steps_absent_or_empty:
  "absent_or_empty v \<Longrightarrow> set_title v t = Some t"
  "absent_or_empty v \<Longrightarrow> set_description v t = Some t"
  "absent_or_empty v \<Longrightarrow> set_status v t = Some t"
  "absent_or_empty v \<Longrightarrow> set_priority v t = Some t"
  "absent_or_empty v \<Longrightarrow> rejects allowed v = Some False"
  by (auto simp: absent_or_empty_def set_title_def set_description_def set_status_def
                 set_priority_def rejects_def)

lemma update_task_success:
  assumes "findIndex (id_matches idp) (tasks st) = Some i"
    and "code (fst (update_task idp now b st)) = 200"
  shows "\<exists>t. update_task idp now b st
               = (Response 200 True (Some ''Task updated successfully'') (TaskData t),
                  st\<lparr>tasks := (tasks st)[i := t]\<rparr>)
            \<and> updatedAt t = now"
  using assms
  by (auto simp: update_task_def Let_def put_back_def internalError_def validationError_def
           split: option.splits bool.splits)

lemma splice1_distinct_filter:
  "distinct (map f xs) \<Longrightarrow> i < length xs \<Longrightarrow>
   splice1 i xs = filter (\<lambda>u. f u \<noteq> f (xs ! i)) xs"
proof (induction xs arbitrary: i)
  case Nil
  then show ?case by simp
next
  case (Cons x xs)
  show ?case
  proof (cases i)
    case 0
    from Cons.prems(1) have "f x \<notin> f ` set xs" by simp
    then have "\<forall>u\<in>set xs. f u \<noteq> f x" by (metis imageI)
    then have "filter (\<lambda>u. f u \<noteq> f x) xs = xs" by (simp add: filter_id_conv)
    with 0 show ?thesis by (simp add: splice1_def)
  next
    case (Suc j)
    with Cons.prems have j: "j < length xs" and d: "distinct (map f xs)" by simp_all
    from j have "xs ! j \<in> set xs" by simp
    with Cons.prems(1) have "f x \<noteq> f (xs ! j)" by auto
    moreover from Cons.IH[OF d j] have "splice1 j xs = filter (\<lambda>u. f u \<noteq> f (xs ! j)) xs" .
    ultimately show ?thesis using Suc by (simp add: splice1_def)
  qed
qed

lemma id_gone_handle: "id_gone k st \<Longrightarrow> id_gone k (snd (handle r st))"
proof (cases r)
  case (Create now1 now2 b)
  assume g: "id_gone k st"
  obtain resp st' where c: "create_task now1 now2 b st = (resp, st')" by force
  from create_task_cases[OF c] g have "id_gone k st'"
    by (auto simp: id_gone_def)
  with Create c show ?thesis by simp
next
  case (Update idp now b)
  assume g: "id_gone k st"
  obtain resp st' where u: "update_task idp now b st = (resp, st')" by force
  from update_task_shape[OF u] have "id_gone k st'"
  proof
    assume "st' = st" with g show ?thesis by simp
  next
    assume "\<exists>i t'. findIndex (id_matches idp) (tasks st) = Some i \<and> st' = put_back st i t'
                 \<and> same_key_fields (tasks st ! i) t'"
    then obtain i t' where i: "findIndex (id_matches idp) (tasks st) = Some i"
      and s: "st' = put_back st i t'" and k: "same_key_fields (tasks st ! i) t'" by blast
    from findIndex_Some[OF i] have il: "i < length (tasks st)" by simp
    then have "tasks st ! i \<in> set (tasks st)" by simp
    with g k have "id_task t' \<noteq> k" by (auto simp: id_gone_def list_all_iff same_key_fields_def)
    moreover have "set ((tasks st)[i := t']) \<subseteq> insert t' (set (tasks st))"
      by (rule set_update_subset_insert)
    ultimately show ?thesis using g s
      by (auto simp: id_gone_def list_all_iff put_back_def)
  qed
  with Update u show ?thesis by simp
next
  case (Delete idp)
  assume g: "id_gone k st"
  obtain resp st' where d: "delete_task idp st = (resp, st')" by force
  from delete_task_cases[OF d] g set_splice1 have "id_gone k st'"
    by (fastforce simp: id_gone_def list_all_iff)
  with Delete d show ?thesis by simp
qed (simp_all add: list_tasks_store get_task_store get_stats_store)

lemma id_gone_run: "id_gone k st \<Longrightarrow> id_gone k (snd (run rs st))"
proof (induction rs arbitrary: st)
  case Nil
  then show ?case by simp
next
  case (Cons r rs)
  from Cons.prems have "id_gone k (snd (handle r st))" by (rule id_gone_handle)
  then have "id_gone k (snd (run rs (snd (handle r st))))" by (rule Cons.IH)
  then show ?case by (simp add: run_Cons_eq)
qed

lemma id_gone_get:
  assumes "id_gone k st" and "parseInt idp = Some (int k)"
  shows "get_task idp st = (Response 404 False (Some ''Task not found'') NoData, st)"
proof -
  from assms have "\<forall>t\<in>set (tasks st). \<not> id_matches idp t"
    by (auto simp: id_gone_def list_all_iff id_matches_def)
  then have "find (id_matches idp) (tasks st) = None" by (simp add: find_None_iff)
  then show ?thesis by (simp add: get_task_def findTaskById_def notFound_def)
qed

section \<open>Create\<close>

text \<open>
  Claim C1. A Create request whose title and description are non-empty strings, and
  whose priority is omitted or is a string that lower-cases to one of low, medium,
  high, succeeds with 201. The returned record has status pending, the lower-cased
  priority (medium when omitted), the trimmed title and description and the next id,
  and the store afterwards is the old collection with that record appended at the end.
  What \<open>trim\<close> removes is stated by \<open>trim_decomp\<close> and \<open>trim_ends\<close>.
\<close>

theorem create_valid_succeeds:
  assumes "req_title b = JStr t" and "t \<noteq> []"
    and "req_description b = JStr d" and "d \<noteq> []"
    and "req_priority b = JUndefined \<or> req_priority b = JStr q"
    and "req_priority b = JStr q \<Longrightarrow> toLowerCase q \<in> {''low'', ''medium'', ''high''}"
  shows "create_task now1 now2 b st =
           (Response 201 True (Some ''Task created successfully'')
              (TaskData \<lparr> id_task = nextId st, title = trim t, description = trim d,
                          status = ''pending'',
                          priority = (if req_priority b = JUndefined then ''medium''
                                      else toLowerCase q),
                          createdAt = now1, updatedAt = now2 \<rparr>),
            \<lparr> tasks = tasks st @
                 [\<lparr> id_task = nextId st, title = trim t, description = trim d,
                     status = ''pending'',
                     priority = (if req_priority b = JUndefined then ''medium''
                                 else toLowerCase q),
                     createdAt = now1, updatedAt = now2 \<rparr>],
              nextId = nextId st + 1 \<rparr>)"
proof (cases "req_priority b = JUndefined")
  case True
  have "toLowerCase ''medium'' = ''medium''" by code_simp
  with True assms(1-4) show ?thesis
    by (simp add: create_task_def Let_def)
next
  case False
  with assms(5) have q: "req_priority b = JStr q" by simp
  from assms(6)[OF q] q assms(1-4) show ?thesis
    by (auto simp: create_task_def Let_def)
qed

theorem create_valid_succeeds_witness:
  "create_task ''t1'' ''t2''
     \<lparr> req_title = JStr '' Write docs '', req_description = JStr ''README'',
       req_status = JUndefined, req_priority = JStr ''High'' \<rparr>
     (init_store ''a'' ''b'' ''c'' ''d'')
   = (Response 201 True (Some ''Task created successfully'')
        (TaskData \<lparr> id_task = 3, title = ''Write docs'', description = ''README'',
                    status = ''pending'', priority = ''high'',
                    createdAt = ''t1'', updatedAt = ''t2'' \<rparr>),
      \<lparr> tasks = tasks (init_store ''a'' ''b'' ''c'' ''d'') @
           [\<lparr> id_task = 3, title = ''Write docs'', description = ''README'',
               status = ''pending'', priority = ''high'',
               createdAt = ''t1'', updatedAt = ''t2'' \<rparr>],
        nextId = 4 \<rparr>)"
proof -
  let ?b = "\<lparr> req_title = JStr '' Write docs '', req_description = JStr ''README'',
       req_status = JUndefined, req_priority = JStr ''High'' \<rparr>"
  have l: "toLowerCase ''High'' = ''high''" by code_simp
  have t1: "trim '' Write docs '' = ''Write docs''" by code_simp
  have t2: "trim ''README'' = ''README''" by code_simp
  have n: "nextId (init_store ''a'' ''b'' ''c'' ''d'') = 3" by (simp add: init_store_def)
  show ?thesis
    using create_valid_succeeds[of ?b "'' Write docs ''" "''README''" "''High''"
             "''t1''" "''t2''" "init_store ''a'' ''b'' ''c'' ''d''"]
    by (simp add: l t1 t2 n)
qed

section \<open>Get\<close>

text \<open>
  Claim C2, as amended. The identifier is read the way \<open>parseInt\<close> reads it: white
  space is skipped, a sign and a prefix \<open>0x\<close> are accepted, and the digits that follow
  are the value, whatever comes after them. Get returns the first task whose id is that
  value. When no task has it, and in particular when the identifier has no such digits
  (\<open>parseInt\<close> gives NaN), Get answers 404 with the message Task not found. Get never
  changes the store.
\<close>

theorem get_task_by_parsed_id:
  "snd (get_task idp st) = st
   \<and> ((\<forall>t\<in>set (tasks st). parseInt idp \<noteq> Some (int (id_task t))) \<longrightarrow>
        fst (get_task idp st) = Response 404 False (Some ''Task not found'') NoData)
   \<and> (parseInt idp = None \<longrightarrow>
        fst (get_task idp st) = Response 404 False (Some ''Task not found'') NoData)
   \<and> ((\<exists>t\<in>set (tasks st). parseInt idp = Some (int (id_task t))) \<longrightarrow>
        (\<exists>i < length (tasks st).
            parseInt idp = Some (int (id_task (tasks st ! i)))
          \<and> (\<forall>j<i. parseInt idp \<noteq> Some (int (id_task (tasks st ! j))))
          \<and> fst (get_task idp st) = Response 200 True None (TaskData (tasks st ! i))))"
proof -
  have f: "findTaskById idp (tasks st)
           = map_option (\<lambda>i. tasks st ! i) (findIndex (id_matches idp) (tasks st))"
    by (simp add: findTaskById_def find_findIndex)
  have none: "(\<forall>t\<in>set (tasks st). parseInt idp \<noteq> Some (int (id_task t))) \<Longrightarrow>
              fst (get_task idp st) = Response 404 False (Some ''Task not found'') NoData"
  proof -
    assume "\<forall>t\<in>set (tasks st). parseInt idp \<noteq> Some (int (id_task t))"
    then have "findIndex (id_matches idp) (tasks st) = None"
      by (simp add: findIndex_None id_matches_def)
    then show ?thesis by (simp add: get_task_def f notFound_def)
  qed
  have some: "(\<exists>t\<in>set (tasks st). parseInt idp = Some (int (id_task t))) \<Longrightarrow>
        (\<exists>i < length (tasks st).
            parseInt idp = Some (int (id_task (tasks st ! i)))
          \<and> (\<forall>j<i. parseInt idp \<noteq> Some (int (id_task (tasks st ! j))))
          \<and> fst (get_task idp st) = Response 200 True None (TaskData (tasks st ! i)))"
  proof -
    assume "\<exists>t\<in>set (tasks st). parseInt idp = Some (int (id_task t))"
    then have "findIndex (id_matches idp) (tasks st) \<noteq> None"
      by (simp add: findIndex_None id_matches_def)
    then obtain i where i: "findIndex (id_matches idp) (tasks st) = Some i" by auto
    from findIndex_Some[OF i] i show ?thesis
      by (auto simp: get_task_def f id_matches_def)
  qed
  from none some show ?thesis by (auto simp: get_task_store)
qed

theorem get_task_by_parsed_id_witness:
  "fst (get_task ''abc'' (init_store ''a'' ''b'' ''c'' ''d''))
     = Response 404 False (Some ''Task not found'') NoData
   \<and> fst (get_task ''7'' (init_store ''a'' ''b'' ''c'' ''d''))
     = Response 404 False (Some ''Task not found'') NoData
   \<and> fst (get_task '' +2nd'' (init_store ''a'' ''b'' ''c'' ''d''))
     = Response 200 True None (TaskData (tasks (init_store ''a'' ''b'' ''c'' ''d'') ! 1))"
proof -
  let ?st = "init_store ''a'' ''b'' ''c'' ''d''"
  have p1: "parseInt ''abc'' = None" by code_simp
  have p2: "\<forall>t\<in>set (tasks ?st). parseInt ''7'' \<noteq> Some (int (id_task t))"
    by code_simp
  have p3: "parseInt '' +2nd'' = Some 2" by code_simp
  have ts: "tasks ?st ! 0 = hd (tasks ?st)" "length (tasks ?st) = 2"
    "id_task (tasks ?st ! 0) = 1" "id_task (tasks ?st ! 1) = 2"
    by (simp_all add: init_store_def)
  have e: "\<exists>t\<in>set (tasks ?st). parseInt '' +2nd'' = Some (int (id_task t))"
    by (simp add: p3 init_store_def)
  from get_task_by_parsed_id[of "''abc''" ?st] p1 have a: "fst (get_task ''abc'' ?st)
     = Response 404 False (Some ''Task not found'') NoData" by blast
  from get_task_by_parsed_id[of "''7''" ?st] p2 have b: "fst (get_task ''7'' ?st)
     = Response 404 False (Some ''Task not found'') NoData" by blast
  from get_task_by_parsed_id[of "'' +2nd''" ?st] e
  obtain i where i: "i < length (tasks ?st)"
     "parseInt '' +2nd'' = Some (int (id_task (tasks ?st ! i)))"
     "fst (get_task '' +2nd'' ?st) = Response 200 True None (TaskData (tasks ?st ! i))"
    by blast
  from i(1) ts(2) have "i = 0 \<or> i = 1" by auto
  with i(2) p3 ts have "i = 1" by auto
  with i(3) a b show ?thesis by simp
qed

text \<open>
  The claim as first stated says that a non-numeric identifier matches nothing. The
  identifier \<open>1abc\<close> is not a numeral, and Get returns task 1 for it.
\<close>

theorem get_task_numeric_prefix_counterexample:
  "\<not> list_all (isRadixDigit 10) ''1abc''
   \<and> get_task ''1abc'' (init_store ''a'' ''b'' ''c'' ''d'')
     = (Response 200 True None
          (TaskData \<lparr> id_task = 1, title = ''Learn Node.js'',
             description = ''Complete Node.js tutorial'',
             status = ''pending'', priority = ''high'',
             createdAt = ''a'', updatedAt = ''b'' \<rparr>),
        init_store ''a'' ''b'' ''c'' ''d'')"
  by code_simp

section \<open>Stats\<close>

text \<open>
  Claim C3. In every reachable store, Stats answers 200 with a total equal to the
  length of the collection; the counts of pending, in-progress and completed tasks add
  up to the total, and so do the counts of high, medium and low priority.
\<close>

theorem stats_totals:
  assumes "reachable st"
  shows "get_stats st = (Response 200 True None (StatsData (compute_stats (tasks st))), st)
       \<and> total (compute_stats (tasks st)) = length (tasks st)
       \<and> pending (compute_stats (tasks st)) + inProgress (compute_stats (tasks st))
           + completed (compute_stats (tasks st)) = total (compute_stats (tasks st))
       \<and> high (byPriority (compute_stats (tasks st)))
           + medium (byPriority (compute_stats (tasks st)))
           + low (byPriority (compute_stats (tasks st))) = total (compute_stats (tasks st))"
proof -
  from reachable_inv[OF assms]
  have s: "list_all (\<lambda>t. status t = ''pending'' \<or> status t = ''in-progress''
                          \<or> status t = ''completed'') (tasks st)"
   and p: "list_all (\<lambda>t. priority t = ''high'' \<or> priority t = ''medium''
                          \<or> priority t = ''low'') (tasks st)"
    by (auto simp: store_inv_def list_all_iff status_values_def priority_values_def)
  have "count_where status ''pending'' (tasks st)
        + count_where status ''in-progress'' (tasks st)
        + count_where status ''completed'' (tasks st) = length (tasks st)"
    by (rule count_where_partition[OF s]) simp_all
  moreover have "count_where priority ''high'' (tasks st)
        + count_where priority ''medium'' (tasks st)
        + count_where priority ''low'' (tasks st) = length (tasks st)"
    by (rule count_where_partition[OF p]) simp_all
  ultimately show ?thesis by (simp add: compute_stats_def get_stats_def)
qed

theorem stats_totals_witness:
  "get_stats (snd (handle
       (Create ''t1'' ''t2'' \<lparr> req_title = JStr ''A'', req_description = JStr ''B'',
                               req_status = JUndefined, req_priority = JStr ''Low'' \<rparr>)
       (init_store ''a'' ''b'' ''c'' ''d'')))
     = (Response 200 True None
          (StatsData \<lparr> total = 3, pending = 2, inProgress = 1, completed = 0,
                       byPriority = \<lparr> high = 1, medium = 1, low = 1 \<rparr> \<rparr>),
        snd (handle
       (Create ''t1'' ''t2'' \<lparr> req_title = JStr ''A'', req_description = JStr ''B'',
                               req_status = JUndefined, req_priority = JStr ''Low'' \<rparr>)
       (init_store ''a'' ''b'' ''c'' ''d'')))"
proof -
  let ?st = "snd (handle
       (Create ''t1'' ''t2'' \<lparr> req_title = JStr ''A'', req_description = JStr ''B'',
                               req_status = JUndefined, req_priority = JStr ''Low'' \<rparr>)
       (init_store ''a'' ''b'' ''c'' ''d''))"
  have r: "reachable ?st" by (rule reachable.step[OF reachable.start])
  have c: "compute_stats (tasks ?st)
           = \<lparr> total = 3, pending = 2, inProgress = 1, completed = 0,
                       byPriority = \<lparr> high = 1, medium = 1, low = 1 \<rparr> \<rparr>"
    by code_simp
  from stats_totals[OF r] have "get_stats ?st
     = (Response 200 True None (StatsData (compute_stats (tasks ?st))), ?st)"
    by (rule conjunct1)
  then show ?thesis by (simp only: c)
qed

section \<open>Issued ids\<close>

text \<open>
  Claim C4, as amended. In every run from the initial store, the ids returned by the
  successful Create calls are strictly increasing, hence never repeated, whatever
  requests (deletions included) lie between them, and none is below 3; a Create served
  first on the initial store gets id 3. In every reachable store no two tasks share
  an id.
\<close>

theorem issued_ids_strictly_increasing:
  "sorted_wrt (<) (created_ids (fst (run rs (init_store c1 u1 c2 u2))))
   \<and> distinct (created_ids (fst (run rs (init_store c1 u1 c2 u2))))
   \<and> (\<forall>k\<in>set (created_ids (fst (run rs (init_store c1 u1 c2 u2)))). 3 \<le> k)
   \<and> (\<forall>k. created_id (fst (handle r (init_store c1 u1 c2 u2))) = Some k \<longrightarrow> k = 3)
   \<and> (reachable st \<longrightarrow> distinct (map id_task (tasks st)))"
proof -
  let ?st0 = "init_store c1 u1 c2 u2"
  have n: "nextId ?st0 = 3" by (simp add: init_store_def)
  from run_counter[of ?st0 rs] n
  have s: "sorted_wrt (<) (created_ids (fst (run rs ?st0)))"
    and l: "\<forall>k\<in>set (created_ids (fst (run rs ?st0))). 3 \<le> k"
    by simp_all
  from s have d: "distinct (created_ids (fst (run rs ?st0)))"
    by (simp add: strict_sorted_iff)
  from handle_counter[of ?st0 r] n
  have f: "\<forall>k. created_id (fst (handle r ?st0)) = Some k \<longrightarrow> k = 3" by simp
  have "reachable st \<longrightarrow> distinct (map id_task (tasks st))"
    using reachable_inv[of st] by (simp add: store_inv_def)
  with s d l f show ?thesis by blast
qed

theorem issued_ids_strictly_increasing_witness:
  "created_ids (fst (run
      [Create ''t1'' ''t1'' \<lparr> req_title = JStr ''A'', req_description = JStr ''B'',
                              req_status = JUndefined, req_priority = JUndefined \<rparr>,
       Delete ''3'',
       Create ''t2'' ''t2'' \<lparr> req_title = JStr ''C'', req_description = JStr ''D'',
                              req_status = JUndefined, req_priority = JStr ''LOW'' \<rparr>]
      (init_store ''a'' ''b'' ''c'' ''d''))) = [3, 4]
   \<and> sorted_wrt (<) (created_ids (fst (run
      [Create ''t1'' ''t1'' \<lparr> req_title = JStr ''A'', req_description = JStr ''B'',
                              req_status = JUndefined, req_priority = JUndefined \<rparr>,
       Delete ''3'',
       Create ''t2'' ''t2'' \<lparr> req_title = JStr ''C'', req_description = JStr ''D'',
                              req_status = JUndefined, req_priority = JStr ''LOW'' \<rparr>]
      (init_store ''a'' ''b'' ''c'' ''d''))))
   \<and> distinct (map id_task (tasks (init_store ''a'' ''b'' ''c'' ''d'')))"
proof -
  let ?rs = "[Create ''t1'' ''t1'' \<lparr> req_title = JStr ''A'', req_description = JStr ''B'',
                              req_status = JUndefined, req_priority = JUndefined \<rparr>,
       Delete ''3'',
       Create ''t2'' ''t2'' \<lparr> req_title = JStr ''C'', req_description = JStr ''D'',
                              req_status = JUndefined, req_priority = JStr ''LOW'' \<rparr>]"
  have e: "created_ids (fst (run ?rs (init_store ''a'' ''b'' ''c'' ''d''))) = [3, 4]"
    by code_simp
  have r: "reachable (init_store ''a'' ''b'' ''c'' ''d'')" by (rule reachable.start)
  from issued_ids_strictly_increasing[of ?rs "''a''" "''b''" "''c''" "''d''" "Stats"
         "init_store ''a'' ''b'' ''c'' ''d''"] r e
  show ?thesis by simp
qed

text \<open>
  The claim as first stated has the issued ids start at 3. A Create whose title is a
  number passes validation, takes id 3 from the counter and then throws; the first id
  a Create returns after it is 4.
\<close>

theorem first_issued_id_counterexample:
  "created_ids (fst (run
      [Create ''t1'' ''t1'' \<lparr> req_title = JNum 5, req_description = JStr ''d'',
                              req_status = JUndefined, req_priority = JUndefined \<rparr>,
       Create ''t2'' ''t2'' \<lparr> req_title = JStr ''A'', req_description = JStr ''B'',
                              req_status = JUndefined, req_priority = JUndefined \<rparr>]
      (init_store ''a'' ''b'' ''c'' ''d''))) = [4]"
  by code_simp

section \<open>Update with no field supplied\<close>

text \<open>
  Claim C5. For an identifier that finds a task, an Update in which each of title,
  description, status and priority is absent or the empty string succeeds with 200;
  the task it returns and stores is the old one with only updatedAt set to the current
  time, every other task and the id counter are as before. An empty string is thus
  treated as a field that was not supplied, not as a validation error. Every Update
  that succeeds, whatever its fields, stores and returns a task whose updatedAt is the
  current time.
\<close>

theorem update_without_fields_refreshes_updatedAt:
  assumes "findIndex (id_matches idp) (tasks st) = Some i"
  shows "(absent_or_empty (req_title b) \<and> absent_or_empty (req_description b)
          \<and> absent_or_empty (req_status b) \<and> absent_or_empty (req_priority b) \<longrightarrow>
            update_task idp now b st
              = (Response 200 True (Some ''Task updated successfully'')
                   (TaskData ((tasks st ! i)\<lparr>updatedAt := now\<rparr>)),
                 st\<lparr>tasks := (tasks st)[i := (tasks st ! i)\<lparr>updatedAt := now\<rparr>]\<rparr>))
       \<and> (code (fst (update_task idp now b st)) = 200 \<longrightarrow>
            (\<exists>t. update_task idp now b st
                    = (Response 200 True (Some ''Task updated successfully'') (TaskData t),
                       st\<lparr>tasks := (tasks st)[i := t]\<rparr>)
                 \<and> updatedAt t = now))"
proof -
  have "update_task idp now b st
              = (Response 200 True (Some ''Task updated successfully'')
                   (TaskData ((tasks st ! i)\<lparr>updatedAt := now\<rparr>)),
                 st\<lparr>tasks := (tasks st)[i := (tasks st ! i)\<lparr>updatedAt := now\<rparr>]\<rparr>)"
    if "absent_or_empty (req_title b)" "absent_or_empty (req_description b)"
       "absent_or_empty (req_status b)" "absent_or_empty (req_priority b)"
    using that assms
    by (simp add: update_task_def Let_def put_back_def set_steps_absent_or_empty)
  with update_task_success[OF assms] show ?thesis by blast
qed

theorem update_without_fields_refreshes_updatedAt_witness:
  "update_task ''2'' ''t9''
      \<lparr> req_title = JStr '''', req_description = JUndefined,
        req_status = JStr '''', req_priority = JUndefined \<rparr>
      (init_store ''a'' ''b'' ''c'' ''d'')
    = (Response 200 True (Some ''Task updated successfully'')
         (TaskData \<lparr> id_task = 2, title = ''Build API'',
             description = ''Create REST API for task management'',
             status = ''in-progress'', priority = ''medium'',
             createdAt = ''c'', updatedAt = ''t9'' \<rparr>),
       \<lparr> tasks =
         [ \<lparr> id_task = 1, title = ''Learn Node.js'',
             description = ''Complete Node.js tutorial'',
             status = ''pending'', priority = ''high'',
             createdAt = ''a'', updatedAt = ''b'' \<rparr>,
           \<lparr> id_task = 2, title = ''Build API'',
             description = ''Create REST API for task management'',
             status = ''in-progress'', priority = ''medium'',
             createdAt = ''c'', updatedAt = ''t9'' \<rparr> ],
       nextId = 3 \<rparr>)
   \<and> (\<exists>t. fst (update_task ''1'' ''t9''
      \<lparr> req_title = JUndefined, req_description = JUndefined,
        req_status = JStr ''Completed'', req_priority = JUndefined \<rparr>
      (init_store ''a'' ''b'' ''c'' ''d''))
       = Response 200 True (Some ''Task updated successfully'') (TaskData t)
       \<and> updatedAt t = ''t9'')"
proof -
  let ?st = "init_store ''a'' ''b'' ''c'' ''d''"
  let ?b = "\<lparr> req_title = JStr '''', req_description = JUndefined,
        req_status = JStr '''', req_priority = JUndefined \<rparr>"
  let ?b2 = "\<lparr> req_title = JUndefined, req_description = JUndefined,
        req_status = JStr ''Completed'', req_priority = JUndefined \<rparr>"
  have i: "findIndex (id_matches ''2'') (tasks ?st) = Some 1" by code_simp
  have i1: "findIndex (id_matches ''1'') (tasks ?st) = Some 0" by code_simp
  have c: "code (fst (update_task ''1'' ''t9'' ?b2 ?st)) = 200" by code_simp
  have e: "absent_or_empty (req_title ?b) \<and> absent_or_empty (req_description ?b)
          \<and> absent_or_empty (req_status ?b) \<and> absent_or_empty (req_priority ?b)"
    by (simp add: absent_or_empty_def)
  from update_without_fields_refreshes_updatedAt[OF i, of ?b "''t9''"] e
  have "update_task ''2'' ''t9'' ?b ?st
              = (Response 200 True (Some ''Task updated successfully'')
                   (TaskData ((tasks ?st ! 1)\<lparr>updatedAt := ''t9''\<rparr>)),
                 ?st\<lparr>tasks := (tasks ?st)[1 := (tasks ?st ! 1)\<lparr>updatedAt := ''t9''\<rparr>]\<rparr>)"
    by blast
  then have a: "update_task ''2'' ''t9'' ?b ?st
    = (Response 200 True (Some ''Task updated successfully'')
         (TaskData \<lparr> id_task = 2, title = ''Build API'',
             description = ''Create REST API for task management'',
             status = ''in-progress'', priority = ''medium'',
             createdAt = ''c'', updatedAt = ''t9'' \<rparr>),
       \<lparr> tasks =
         [ \<lparr> id_task = 1, title = ''Learn Node.js'',
             description = ''Complete Node.js tutorial'',
             status = ''pending'', priority = ''high'',
             createdAt = ''a'', updatedAt = ''b'' \<rparr>,
           \<lparr> id_task = 2, title = ''Build API'',
             description = ''Create REST API for task management'',
             status = ''in-progress'', priority = ''medium'',
             createdAt = ''c'', updatedAt = ''t9'' \<rparr> ],
       nextId = 3 \<rparr>)"
    by (simp add: init_store_def)
  from update_without_fields_refreshes_updatedAt[OF i1, of ?b2 "''t9''"] c
  obtain t where "update_task ''1'' ''t9'' ?b2 ?st
                    = (Response 200 True (Some ''Task updated successfully'') (TaskData t),
                       ?st\<lparr>tasks := (tasks ?st)[0 := t]\<rparr>)" "updatedAt t = ''t9''"
    by blast
  then have "\<exists>t. fst (update_task ''1'' ''t9'' ?b2 ?st)
       = Response 200 True (Some ''Task updated successfully'') (TaskData t)
       \<and> updatedAt t = ''t9''"
    by auto
  with a show ?thesis by blast
qed

section \<open>Delete\<close>

text \<open>
  Claim C6. In every reachable store, a Delete whose identifier matches no task answers
  404 and changes nothing. A Delete whose identifier matches a task answers 200 with
  that task as it was, and leaves the collection without it: the tasks of all other
  ids remain, in their order, and the collection is one shorter. After that, whatever
  requests are served in between, a Get with the same identifier answers 404.
\<close>

theorem delete_removes_and_get_fails:
  assumes "reachable st"
  shows "((\<forall>t\<in>set (tasks st). parseInt idp \<noteq> Some (int (id_task t))) \<longrightarrow>
            delete_task idp st = (Response 404 False (Some ''Task not found'') NoData, st))
       \<and> (\<forall>t\<in>set (tasks st). parseInt idp = Some (int (id_task t)) \<longrightarrow>
            delete_task idp st
              = (Response 200 True (Some ''Task deleted successfully'') (TaskData t),
                 st\<lparr>tasks := filter (\<lambda>u. id_task u \<noteq> id_task t) (tasks st)\<rparr>)
            \<and> length (tasks (snd (delete_task idp st))) = length (tasks st) - 1
            \<and> (\<forall>rs. get_task idp (snd (run rs (snd (delete_task idp st))))
                      = (Response 404 False (Some ''Task not found'') NoData,
                         snd (run rs (snd (delete_task idp st))))))"
proof -
  from reachable_inv[OF assms] have dist: "distinct (map id_task (tasks st))"
    and below: "\<forall>t\<in>set (tasks st). id_task t < nextId st"
    by (simp_all add: store_inv_def list_all_iff)
  have absent: "delete_task idp st = (Response 404 False (Some ''Task not found'') NoData, st)"
    if "\<forall>t\<in>set (tasks st). parseInt idp \<noteq> Some (int (id_task t))"
  proof -
    from that have "findIndex (id_matches idp) (tasks st) = None"
      by (simp add: findIndex_None id_matches_def)
    then show ?thesis by (simp add: delete_task_def notFound_def)
  qed
  have present: "delete_task idp st
              = (Response 200 True (Some ''Task deleted successfully'') (TaskData t),
                 st\<lparr>tasks := filter (\<lambda>u. id_task u \<noteq> id_task t) (tasks st)\<rparr>)
            \<and> length (tasks (snd (delete_task idp st))) = length (tasks st) - 1
            \<and> (\<forall>rs. get_task idp (snd (run rs (snd (delete_task idp st))))
                      = (Response 404 False (Some ''Task not found'') NoData,
                         snd (run rs (snd (delete_task idp st)))))"
    if t: "t \<in> set (tasks st)" and p: "parseInt idp = Some (int (id_task t))" for t
  proof -
    from t p have "findIndex (id_matches idp) (tasks st) \<noteq> None"
      by (auto simp: findIndex_None id_matches_def)
    then obtain i where i: "findIndex (id_matches idp) (tasks st) = Some i" by auto
    from findIndex_Some[OF i] have il: "i < length (tasks st)"
      and im: "id_matches idp (tasks st ! i)" by simp_all
    from im p have "id_task (tasks st ! i) = id_task t" by (simp add: id_matches_def)
    moreover from il have "tasks st ! i \<in> set (tasks st)" by simp
    ultimately have ti: "tasks st ! i = t"
      using dist t by (meson distinct_map inj_onD)
    have sp: "splice1 i (tasks st) = filter (\<lambda>u. id_task u \<noteq> id_task t) (tasks st)"
      using splice1_distinct_filter[OF dist il] ti by simp
    have d: "delete_task idp st
              = (Response 200 True (Some ''Task deleted successfully'') (TaskData t),
                 st\<lparr>tasks := filter (\<lambda>u. id_task u \<noteq> id_task t) (tasks st)\<rparr>)"
      using i ti sp by (simp add: delete_task_def)
    have len: "length (splice1 i (tasks st)) = length (tasks st) - 1"
      using il by (simp add: splice1_def)
    have "id_gone (id_task t) (snd (delete_task idp st))"
      using d below t by (simp add: id_gone_def list_all_iff)
    then have g: "id_gone (id_task t) (snd (run rs (snd (delete_task idp st))))" for rs
      by (rule id_gone_run)
    have "\<forall>rs. get_task idp (snd (run rs (snd (delete_task idp st))))
                      = (Response 404 False (Some ''Task not found'') NoData,
                         snd (run rs (snd (delete_task idp st))))"
    proof
      fix rs
      from g[of rs] p
      show "get_task idp (snd (run rs (snd (delete_task idp st))))
              = (Response 404 False (Some ''Task not found'') NoData,
                 snd (run rs (snd (delete_task idp st))))"
        by (rule id_gone_get)
    qed
    with d len sp show ?thesis by simp
  qed
  from absent present show ?thesis by blast
qed

theorem delete_removes_and_get_fails_witness:
  "delete_task ''9'' (init_store ''a'' ''b'' ''c'' ''d'')
     = (Response 404 False (Some ''Task not found'') NoData, init_store ''a'' ''b'' ''c'' ''d'')
   \<and> delete_task ''1'' (init_store ''a'' ''b'' ''c'' ''d'')
     = (Response 200 True (Some ''Task deleted successfully'')
          (TaskData \<lparr> id_task = 1, title = ''Learn Node.js'',
             description = ''Complete Node.js tutorial'',
             status = ''pending'', priority = ''high'',
             createdAt = ''a'', updatedAt = ''b'' \<rparr>),
        \<lparr> tasks = [\<lparr> id_task = 2, title = ''Build API'',
             description = ''Create REST API for task management'',
             status = ''in-progress'', priority = ''medium'',
             createdAt = ''c'', updatedAt = ''d'' \<rparr>], nextId = 3 \<rparr>)
   \<and> fst (get_task ''1'' (snd (run
        [Update ''2'' ''t5'' \<lparr> req_title = JStr ''x'', req_description = JUndefined,
                               req_status = JUndefined, req_priority = JUndefined \<rparr>,
         Create ''t6'' ''t6'' \<lparr> req_title = JStr ''y'', req_description = JStr ''z'',
                               req_status = JUndefined, req_priority = JUndefined \<rparr>]
        (snd (delete_task ''1'' (init_store ''a'' ''b'' ''c'' ''d''))))))
     = Response 404 False (Some ''Task not found'') NoData"
proof -
  let ?st = "init_store ''a'' ''b'' ''c'' ''d''"
  let ?t1 = "\<lparr> id_task = 1, title = ''Learn Node.js'',
             description = ''Complete Node.js tutorial'',
             status = ''pending'', priority = ''high'',
             createdAt = ''a'', updatedAt = ''b'' \<rparr>"
  let ?rs = "[Update ''2'' ''t5'' \<lparr> req_title = JStr ''x'', req_description = JUndefined,
                               req_status = JUndefined, req_priority = JUndefined \<rparr>,
         Create ''t6'' ''t6'' \<lparr> req_title = JStr ''y'', req_description = JStr ''z'',
                               req_status = JUndefined, req_priority = JUndefined \<rparr>]"
  have r: "reachable ?st" by (rule reachable.start)
  have p9: "\<forall>t\<in>set (tasks ?st). parseInt ''9'' \<noteq> Some (int (id_task t))" by code_simp
  have p1: "parseInt ''1'' = Some (int (id_task ?t1))" by code_simp
  have m: "?t1 \<in> set (tasks ?st)" by (simp add: init_store_def)
  have f: "?st\<lparr>tasks := filter (\<lambda>u. id_task u \<noteq> id_task ?t1) (tasks ?st)\<rparr>
           = \<lparr> tasks = [\<lparr> id_task = 2, title = ''Build API'',
             description = ''Create REST API for task management'',
             status = ''in-progress'', priority = ''medium'',
             createdAt = ''c'', updatedAt = ''d'' \<rparr>], nextId = 3 \<rparr>"
    by (simp add: init_store_def)
  from delete_removes_and_get_fails[OF r, of "''9''"] p9
  have a: "delete_task ''9'' ?st = (Response 404 False (Some ''Task not found'') NoData, ?st)"
    by blast
  from delete_removes_and_get_fails[OF r, of "''1''"] m p1
  have b: "delete_task ''1'' ?st
              = (Response 200 True (Some ''Task deleted successfully'') (TaskData ?t1),
                 ?st\<lparr>tasks := filter (\<lambda>u. id_task u \<noteq> id_task ?t1) (tasks ?st)\<rparr>)"
    and c: "get_task ''1'' (snd (run ?rs (snd (delete_task ''1'' ?st))))
                      = (Response 404 False (Some ''Task not found'') NoData,
                         snd (run ?rs (snd (delete_task ''1'' ?st))))"
    by blast+
  from b have b': "delete_task ''1'' ?st
     = (Response 200 True (Some ''Task deleted successfully'') (TaskData ?t1),
        \<lparr> tasks = [\<lparr> id_task = 2, title = ''Build API'',
             description = ''Create REST API for task management'',
             status = ''in-progress'', priority = ''medium'',
             createdAt = ''c'', updatedAt = ''d'' \<rparr>], nextId = 3 \<rparr>)"
    by (simp only: f)
  from c have c': "fst (get_task ''1'' (snd (run ?rs (snd (delete_task ''1'' ?st)))))
                   = Response 404 False (Some ''Task not found'') NoData"
    by (simp only: fst_conv)
  from a b' c' show ?thesis by (intro conjI)
qed

section \<open>List\<close>

text \<open>
  Claim C7, as amended. Let each of the status and priority filters be absent or a
  string. List answers 200 with the tasks, in the order of the collection, whose
  status lower-cased equals the lower-cased status filter if that filter is a
  non-empty string, and whose priority lower-cased equals the lower-cased priority
  filter if that filter is a non-empty string, together with their number. A filter
  that is absent or the empty string selects nothing, so without filters the whole
  collection is returned. List never changes the store.
\<close>

theorem list_tasks_filters:
  "snd (list_tasks qs qp st) = st
   \<and> ((qs = JUndefined \<or> qs = JStr s) \<and> (qp = JUndefined \<or> qp = JStr p) \<longrightarrow>
        fst (list_tasks qs qp st) =
           Response 200 True None
              (TaskList
                 (length (filter (\<lambda>t. (qs = JStr s \<and> s \<noteq> [] \<longrightarrow>
                                          toLowerCase (status t) = toLowerCase s)
                                     \<and> (qp = JStr p \<and> p \<noteq> [] \<longrightarrow>
                                          toLowerCase (priority t) = toLowerCase p))
                            (tasks st)))
                 (filter (\<lambda>t. (qs = JStr s \<and> s \<noteq> [] \<longrightarrow>
                                  toLowerCase (status t) = toLowerCase s)
                             \<and> (qp = JStr p \<and> p \<noteq> [] \<longrightarrow>
                                  toLowerCase (priority t) = toLowerCase p))
                    (tasks st))))"
proof -
  have "fst (list_tasks qs qp st) =
           Response 200 True None
              (TaskList
                 (length (filter (\<lambda>t. (qs = JStr s \<and> s \<noteq> [] \<longrightarrow>
                                          toLowerCase (status t) = toLowerCase s)
                                     \<and> (qp = JStr p \<and> p \<noteq> [] \<longrightarrow>
                                          toLowerCase (priority t) = toLowerCase p))
                            (tasks st)))
                 (filter (\<lambda>t. (qs = JStr s \<and> s \<noteq> [] \<longrightarrow>
                                  toLowerCase (status t) = toLowerCase s)
                             \<and> (qp = JStr p \<and> p \<noteq> [] \<longrightarrow>
                                  toLowerCase (priority t) = toLowerCase p))
                    (tasks st)))"
    if "qs = JUndefined \<or> qs = JStr s" and "qp = JUndefined \<or> qp = JStr p"
    using that
    by (auto simp: list_tasks_def filter_step_string filter_step_absent)
  then show ?thesis by (simp add: list_tasks_store)
qed

theorem list_tasks_filters_witness:
  "list_tasks (JStr ''PENDING'') (JStr ''High'') (init_store ''a'' ''b'' ''c'' ''d'')
     = (Response 200 True None
          (TaskList 1 [\<lparr> id_task = 1, title = ''Learn Node.js'',
             description = ''Complete Node.js tutorial'',
             status = ''pending'', priority = ''high'',
             createdAt = ''a'', updatedAt = ''b'' \<rparr>]),
        init_store ''a'' ''b'' ''c'' ''d'')
   \<and> list_tasks JUndefined JUndefined (init_store ''a'' ''b'' ''c'' ''d'')
     = (Response 200 True None (TaskList 2 (tasks (init_store ''a'' ''b'' ''c'' ''d''))),
        init_store ''a'' ''b'' ''c'' ''d'')"
proof -
  let ?st = "init_store ''a'' ''b'' ''c'' ''d''"
  have f: "filter (\<lambda>t. toLowerCase (status t) = toLowerCase ''PENDING''
                     \<and> toLowerCase (priority t) = toLowerCase ''High'') (tasks ?st)
           = [\<lparr> id_task = 1, title = ''Learn Node.js'',
             description = ''Complete Node.js tutorial'',
             status = ''pending'', priority = ''high'',
             createdAt = ''a'', updatedAt = ''b'' \<rparr>]"
    by code_simp
  have l: "length (tasks ?st) = 2" by (simp add: init_store_def)
  from list_tasks_filters[of "JStr ''PENDING''" "JStr ''High''" ?st "''PENDING''" "''High''"]
  have a: "list_tasks (JStr ''PENDING'') (JStr ''High'') ?st
     = (Response 200 True None
          (TaskList 1 [\<lparr> id_task = 1, title = ''Learn Node.js'',
             description = ''Complete Node.js tutorial'',
             status = ''pending'', priority = ''high'',
             createdAt = ''a'', updatedAt = ''b'' \<rparr>]), ?st)"
    by (simp add: f prod_eq_iff)
  from list_tasks_filters[of JUndefined JUndefined ?st "[]" "[]"]
  have b: "list_tasks JUndefined JUndefined ?st
     = (Response 200 True None (TaskList 2 (tasks ?st)), ?st)"
    by (simp add: l prod_eq_iff)
  from a b show ?thesis by simp
qed

text \<open>
  The claim as first stated returns, for a status filter that is given, exactly the
  tasks with that status. For the request \<open>?status=\<close> the filter is the empty string:
  no task has that status, and List returns both tasks of the initial store.
\<close>

theorem list_tasks_empty_filter_counterexample:
  "filter (\<lambda>t. toLowerCase (status t) = toLowerCase '''')
      (tasks (init_store ''a'' ''b'' ''c'' ''d'')) = []
   \<and> fst (list_tasks (JStr '''') JUndefined (init_store ''a'' ''b'' ''c'' ''d''))
     = Response 200 True None
         (TaskList 2
            [\<lparr> id_task = 1, title = ''Learn Node.js'',
               description = ''Complete Node.js tutorial'',
               status = ''pending'', priority = ''high'',
               createdAt = ''a'', updatedAt = ''b'' \<rparr>,
             \<lparr> id_task = 2, title = ''Build API'',
               description = ''Create REST API for task management'',
               status = ''in-progress'', priority = ''medium'',
               createdAt = ''c'', updatedAt = ''d'' \<rparr>])"
  by code_simp

section \<open>Titles that are empty after trimming\<close>

text \<open>
  Claim C8 says that every stored title and description is non-empty and trimmed, and
  that a Create whose title would be empty after trimming is rejected. The handlers
  test the value before they trim it. A Create with the title of three spaces answers
  201 and stores a task whose title is the empty string, and an Update of task 1 with
  the title of one space replaces its title by the empty string.
\<close>

theorem whitespace_title_stored_empty:
  "create_task ''t1'' ''t2''
     \<lparr> req_title = JStr ''   '', req_description = JStr ''d'',
       req_status = JUndefined, req_priority = JUndefined \<rparr>
     (init_store ''a'' ''b'' ''c'' ''d'')
   = (Response 201 True (Some ''Task created successfully'')
        (TaskData \<lparr> id_task = 3, title = [], description = ''d'',
                    status = ''pending'', priority = ''medium'',
                    createdAt = ''t1'', updatedAt = ''t2'' \<rparr>),
      \<lparr> tasks = tasks (init_store ''a'' ''b'' ''c'' ''d'') @
           [\<lparr> id_task = 3, title = [], description = ''d'',
               status = ''pending'', priority = ''medium'',
               createdAt = ''t1'', updatedAt = ''t2'' \<rparr>],
        nextId = 4 \<rparr>)
   \<and> title (tasks (snd (update_task ''1'' ''t3''
        \<lparr> req_title = JStr '' '', req_description = JUndefined,
          req_status = JUndefined, req_priority = JUndefined \<rparr>
        (init_store ''a'' ''b'' ''c'' ''d''))) ! 0) = []"
  by code_simp

theorem whitespace_title_stored_empty_witness:
  "code (fst (create_task ''t1'' ''t2''
     \<lparr> req_title = JStr ''   '', req_description = JStr ''d'',
       req_status = JUndefined, req_priority = JUndefined \<rparr>
     (init_store ''a'' ''b'' ''c'' ''d''))) = 201
   \<and> title (last (tasks (snd (create_task ''t1'' ''t2''
     \<lparr> req_title = JStr ''   '', req_description = JStr ''d'',
       req_status = JUndefined, req_priority = JUndefined \<rparr>
     (init_store ''a'' ''b'' ''c'' ''d''))))) = []"
  using whitespace_title_stored_empty by simp

section \<open>Update rejected by validation\<close>

text \<open>
  Claim C9. Whenever Update answers 400, the store it leaves is the store it found,
  the task's updatedAt included. For a task that exists it answers 400 when the status
  is a non-empty string that does not lower-case to pending, in-progress or completed,
  and when the status passes and the priority is a non-empty string that does not
  lower-case to low, medium or high.
\<close>

theorem update_validation_failure_atomic:
  "(code (fst (update_task idp now b st)) = 400 \<longrightarrow> snd (update_task idp now b st) = st)
   \<and> (findIndex (id_matches idp) (tasks st) = Some i \<and> req_status b = JStr s \<and> s \<noteq> []
        \<and> toLowerCase s \<notin> {''pending'', ''in-progress'', ''completed''} \<longrightarrow>
        update_task idp now b st
          = (Response 400 False
               (Some ''Status must be: pending, in-progress, or completed'') NoData, st))
   \<and> (findIndex (id_matches idp) (tasks st) = Some i
        \<and> (req_status b = JUndefined \<or> req_status b = JStr [] \<or>
            (req_status b = JStr s
              \<and> toLowerCase s \<in> {''pending'', ''in-progress'', ''completed''}))
        \<and> req_priority b = JStr p \<and> p \<noteq> []
        \<and> toLowerCase p \<notin> {''low'', ''medium'', ''high''} \<longrightarrow>
        update_task idp now b st
          = (Response 400 False (Some ''Priority must be: low, medium, or high'') NoData, st))"
proof -
  have a: "code (fst (update_task idp now b st)) = 400 \<Longrightarrow> snd (update_task idp now b st) = st"
    by (auto simp: update_task_def Let_def notFound_def internalError_def validationError_def
             split: option.splits bool.splits)
  have b: "findIndex (id_matches idp) (tasks st) = Some i \<Longrightarrow> req_status b = JStr s \<Longrightarrow> s \<noteq> []
        \<Longrightarrow> toLowerCase s \<notin> {''pending'', ''in-progress'', ''completed''} \<Longrightarrow>
        update_task idp now b st
          = (Response 400 False
               (Some ''Status must be: pending, in-progress, or completed'') NoData, st)"
    by (simp add: update_task_def rejects_def validationError_def)
  have c: "findIndex (id_matches idp) (tasks st) = Some i
        \<Longrightarrow> (req_status b = JUndefined \<or> req_status b = JStr [] \<or>
            (req_status b = JStr s
              \<and> toLowerCase s \<in> {''pending'', ''in-progress'', ''completed''}))
        \<Longrightarrow> req_priority b = JStr p \<Longrightarrow> p \<noteq> []
        \<Longrightarrow> toLowerCase p \<notin> {''low'', ''medium'', ''high''} \<Longrightarrow>
        update_task idp now b st
          = (Response 400 False (Some ''Priority must be: low, medium, or high'') NoData, st)"
    by (auto simp: update_task_def rejects_def validationError_def)
  from a b c show ?thesis by blast
qed

theorem update_validation_failure_atomic_witness:
  "update_task ''1'' ''t9''
      \<lparr> req_title = JStr ''New title'', req_description = JUndefined,
        req_status = JStr ''done'', req_priority = JUndefined \<rparr>
      (init_store ''a'' ''b'' ''c'' ''d'')
    = (Response 400 False
         (Some ''Status must be: pending, in-progress, or completed'') NoData,
       init_store ''a'' ''b'' ''c'' ''d'')
   \<and> update_task ''2'' ''t9''
      \<lparr> req_title = JStr ''New title'', req_description = JUndefined,
        req_status = JStr ''Completed'', req_priority = JStr ''urgent'' \<rparr>
      (init_store ''a'' ''b'' ''c'' ''d'')
    = (Response 400 False (Some ''Priority must be: low, medium, or high'') NoData,
       init_store ''a'' ''b'' ''c'' ''d'')
   \<and> snd (update_task ''2'' ''t9''
      \<lparr> req_title = JStr ''New title'', req_description = JUndefined,
        req_status = JStr ''Completed'', req_priority = JStr ''urgent'' \<rparr>
      (init_store ''a'' ''b'' ''c'' ''d'')) = init_store ''a'' ''b'' ''c'' ''d''"
proof -
  let ?st = "init_store ''a'' ''b'' ''c'' ''d''"
  let ?b1 = "\<lparr> req_title = JStr ''New title'', req_description = JUndefined,
        req_status = JStr ''done'', req_priority = JUndefined \<rparr>"
  let ?b2 = "\<lparr> req_title = JStr ''New title'', req_description = JUndefined,
        req_status = JStr ''Completed'', req_priority = JStr ''urgent'' \<rparr>"
  have i1: "findIndex (id_matches ''1'') (tasks ?st) = Some 0" by code_simp
  have i2: "findIndex (id_matches ''2'') (tasks ?st) = Some 1" by code_simp
  have l1: "toLowerCase ''done'' \<notin> {''pending'', ''in-progress'', ''completed''}"
    by code_simp
  have l2: "toLowerCase ''Completed'' \<in> {''pending'', ''in-progress'', ''completed''}"
    by code_simp
  have l3: "toLowerCase ''urgent'' \<notin> {''low'', ''medium'', ''high''}"
    by code_simp
  have c2: "code (fst (update_task ''2'' ''t9'' ?b2 ?st)) = 400" by code_simp
  from update_validation_failure_atomic[of "''1''" "''t9''" ?b1 ?st 0 "''done''" "[]"]
    i1 l1
  have a: "update_task ''1'' ''t9'' ?b1 ?st = (Response 400 False
         (Some ''Status must be: pending, in-progress, or completed'') NoData, ?st)"
    by simp
  from update_validation_failure_atomic[of "''2''" "''t9''" ?b2 ?st 1 "''Completed''" "''urgent''"]
    i2 l2 l3 c2
  have b: "update_task ''2'' ''t9'' ?b2 ?st
      = (Response 400 False (Some ''Priority must be: low, medium, or high'') NoData, ?st)
     \<and> snd (update_task ''2'' ''t9'' ?b2 ?st) = ?st"
    by simp
  from a b show ?thesis by simp
qed

section \<open>Rejected Create and the id counter\<close>

text \<open>
  Claim C10, as amended. A Create rejected with a validation error (400) leaves the
  store, and with it the id counter, as it was. In every run from the initial store in
  which no Create ends in an internal error, the ids of the created tasks are exactly
  3, 4, 5, ... without gaps, however many requests were rejected in between, and the
  counter is 3 plus the number of tasks created.
\<close>

theorem rejected_create_consumes_no_id:
  "(code (fst (create_task now1 now2 b st)) = 400 \<longrightarrow> snd (create_task now1 now2 b st) = st)
   \<and> (list_all (\<lambda>(r, resp). is_create r \<longrightarrow> code resp \<noteq> 500)
         (zip rs (fst (run rs (init_store c1 u1 c2 u2)))) \<longrightarrow>
        created_ids (fst (run rs (init_store c1 u1 c2 u2)))
          = [3 ..< 3 + length (created_ids (fst (run rs (init_store c1 u1 c2 u2))))]
        \<and> nextId (snd (run rs (init_store c1 u1 c2 u2)))
          = 3 + length (created_ids (fst (run rs (init_store c1 u1 c2 u2)))))"
proof -
  let ?st0 = "init_store c1 u1 c2 u2"
  have a: "code (fst (create_task now1 now2 b st)) = 400 \<longrightarrow> snd (create_task now1 now2 b st) = st"
  proof -
    obtain resp st' where c: "create_task now1 now2 b st = (resp, st')" by force
    from create_task_cases[OF c] c show ?thesis by auto
  qed
  have n: "nextId ?st0 = 3" by (simp add: init_store_def)
  have b: "created_ids (fst (run rs ?st0))
          = [3 ..< 3 + length (created_ids (fst (run rs ?st0)))]
        \<and> nextId (snd (run rs ?st0)) = 3 + length (created_ids (fst (run rs ?st0)))"
    if ok: "list_all (\<lambda>(r, resp). is_create r \<longrightarrow> code resp \<noteq> 500) (zip rs (fst (run rs ?st0)))"
  proof -
    from run_counter_exact[OF ok] n
    have e: "created_ids (fst (run rs ?st0)) = [3 ..< nextId (snd (run rs ?st0))]" by simp
    from run_counter[of ?st0 rs] n have m: "3 \<le> nextId (snd (run rs ?st0))" by simp
    from e have "length (created_ids (fst (run rs ?st0))) = nextId (snd (run rs ?st0)) - 3"
      by simp
    with m have "nextId (snd (run rs ?st0)) = 3 + length (created_ids (fst (run rs ?st0)))"
      by simp
    with e show ?thesis by simp
  qed
  from a b show ?thesis by blast
qed

theorem rejected_create_consumes_no_id_witness:
  "snd (create_task ''t1'' ''t1''
          \<lparr> req_title = JStr ''A'', req_description = JUndefined,
            req_status = JUndefined, req_priority = JUndefined \<rparr>
          (init_store ''a'' ''b'' ''c'' ''d'')) = init_store ''a'' ''b'' ''c'' ''d''
   \<and> created_ids (fst (run
      [Create ''t1'' ''t1'' \<lparr> req_title = JStr ''A'', req_description = JStr ''B'',
                              req_status = JUndefined, req_priority = JUndefined \<rparr>,
       Create ''t2'' ''t2'' \<lparr> req_title = JStr ''A'', req_description = JStr ''B'',
                              req_status = JUndefined, req_priority = JStr ''urgent'' \<rparr>,
       Create ''t3'' ''t3'' \<lparr> req_title = JStr ''C'', req_description = JStr ''D'',
                              req_status = JUndefined, req_priority = JStr ''LOW'' \<rparr>]
      (init_store ''a'' ''b'' ''c'' ''d''))) = [3, 4]
   \<and> nextId (snd (run
      [Create ''t1'' ''t1'' \<lparr> req_title = JStr ''A'', req_description = JStr ''B'',
                              req_status = JUndefined, req_priority = JUndefined \<rparr>,
       Create ''t2'' ''t2'' \<lparr> req_title = JStr ''A'', req_description = JStr ''B'',
                              req_status = JUndefined, req_priority = JStr ''urgent'' \<rparr>,
       Create ''t3'' ''t3'' \<lparr> req_title = JStr ''C'', req_description = JStr ''D'',
                              req_status = JUndefined, req_priority = JStr ''LOW'' \<rparr>]
      (init_store ''a'' ''b'' ''c'' ''d''))) = 5"
proof -
  let ?st0 = "init_store ''a'' ''b'' ''c'' ''d''"
  let ?b = "\<lparr> req_title = JStr ''A'', req_description = JUndefined,
            req_status = JUndefined, req_priority = JUndefined \<rparr>"
  let ?rs = "[Create ''t1'' ''t1'' \<lparr> req_title = JStr ''A'', req_description = JStr ''B'',
                              req_status = JUndefined, req_priority = JUndefined \<rparr>,
       Create ''t2'' ''t2'' \<lparr> req_title = JStr ''A'', req_description = JStr ''B'',
                              req_status = JUndefined, req_priority = JStr ''urgent'' \<rparr>,
       Create ''t3'' ''t3'' \<lparr> req_title = JStr ''C'', req_description = JStr ''D'',
                              req_status = JUndefined, req_priority = JStr ''LOW'' \<rparr>]"
  have c: "code (fst (create_task ''t1'' ''t1'' ?b ?st0)) = 400" by code_simp
  have ok: "list_all (\<lambda>(r, resp). is_create r \<longrightarrow> code resp \<noteq> 500)
              (zip ?rs (fst (run ?rs ?st0)))" by code_simp
  have len: "length (created_ids (fst (run ?rs ?st0))) = 2" by code_simp
  from rejected_create_consumes_no_id[of "''t1''" "''t1''" ?b ?st0 ?rs "''a''" "''b''" "''c''" "''d''"]
    c ok
  have "snd (create_task ''t1'' ''t1'' ?b ?st0) = ?st0
      \<and> created_ids (fst (run ?rs ?st0)) = [3 ..< 3 + length (created_ids (fst (run ?rs ?st0)))]
      \<and> nextId (snd (run ?rs ?st0)) = 3 + length (created_ids (fst (run ?rs ?st0)))"
    by blast
  then show ?thesis unfolding len by (simp add: upt_rec)
qed

text \<open>
  The claim as first stated has every failed Create leave the counter alone. A Create
  whose description is a number passes validation, advances the counter and then
  throws: it answers 500, the counter is 4 afterwards, and the ids created around it
  are 3 and 5.
\<close>

theorem failed_create_consumes_id_counterexample:
  "code (fst (create_task ''t2'' ''t2''
          \<lparr> req_title = JStr ''A'', req_description = JNum 7,
            req_status = JUndefined, req_priority = JUndefined \<rparr>
          (init_store ''a'' ''b'' ''c'' ''d''))) = 500
   \<and> nextId (snd (create_task ''t2'' ''t2''
          \<lparr> req_title = JStr ''A'', req_description = JNum 7,
            req_status = JUndefined, req_priority = JUndefined \<rparr>
          (init_store ''a'' ''b'' ''c'' ''d''))) = 4
   \<and> created_ids (fst (run
      [Create ''t1'' ''t1'' \<lparr> req_title = JStr ''A'', req_description = JStr ''B'',
                              req_status = JUndefined, req_priority = JUndefined \<rparr>,
       Create ''t2'' ''t2'' \<lparr> req_title = JStr ''A'', req_description = JNum 7,
                              req_status = JUndefined, req_priority = JUndefined \<rparr>,
       Create ''t3'' ''t3'' \<lparr> req_title = JStr ''C'', req_description = JStr ''D'',
                              req_status = JUndefined, req_priority = JUndefined \<rparr>]
      (init_store ''a'' ''b'' ''c'' ''d''))) = [3, 5]"
  by code_simp

end
